theory Spec2Isabelle
  imports Main "HOL-Library.FSet"
begin

section \<open>JavaScript string helpers used by the organizer\<close>

text \<open>
  Identities of page entries are strings built with template literals and taken apart
  again by \<^verbatim>\<open>page.id.split('-')[1]\<close> and \<^verbatim>\<open>parseInt\<close>. Strings are
  modelled as \<^typ>\<open>string\<close>, a character being a code unit below \<open>0x100\<close>; the
  identities the component generates are ASCII.
\<close>

definition digit_char :: "nat \<Rightarrow> char" where
  "digit_char d = ''0123456789'' ! d"

text \<open>\<^verbatim>\<open>`${i}`\<close> for a non-negative integer \<open>i\<close>: its decimal numeral.\<close>

function show_nat :: "nat \<Rightarrow> string" where
  "show_nat n = (if n < 10 then [digit_char n]
                 else show_nat (n div 10) @ [digit_char (n mod 10)])"
  by pat_completeness auto
termination
  by (relation "measure (\<lambda>n. n)") auto

declare show_nat.simps [simp del]

text \<open>\<^verbatim>\<open>s.split(c)\<close> for a one-character separator: never empty, \<open>"".split(c) = [""]\<close>.\<close>

fun split :: "char \<Rightarrow> string \<Rightarrow> string list" where
  "split c [] = [[]]"
| "split c (x # xs) =
     (if x = c then [] # split c xs
      else (case split c xs of
              [] \<Rightarrow> [[x]]
            | t # ts \<Rightarrow> (x # t) # ts))"

text \<open>
  \<^verbatim>\<open>a[i]\<close> on an array: \<open>None\<close> stands for \<^verbatim>\<open>undefined\<close> (index out of range).
\<close>

fun index :: "'a list \<Rightarrow> nat \<Rightarrow> 'a option" where
  "index [] i = None"
| "index (x # xs) 0 = Some x"
| "index (x # xs) (Suc i) = index xs i"

text \<open>
  \<^verbatim>\<open>parseInt(s)\<close> with no radix: leading white space is skipped, an optional sign is
  read, a \<^verbatim>\<open>0x\<close>/\<^verbatim>\<open>0X\<close> prefix selects radix 16, and the longest prefix of digits
  is converted; \<open>None\<close> stands for \<^verbatim>\<open>NaN\<close>. The value is an unbounded integer: the
  result is only ever compared with a page count and used as a page index, and the
  rounding of a double is monotone and exact below \<open>2^53\<close>, so both uses agree with
  the JavaScript number. White space is \<^verbatim>\<open>StrWhiteSpaceChar\<close> as far as it lies below
  \<open>0x100\<close>: tab, line feed, vertical tab, form feed, carriage return, space and the
  no-break space \<open>0xA0\<close>.
\<close>

definition isWhiteSpace :: "char \<Rightarrow> bool" where
  "isWhiteSpace c =
     (c \<in> set [CHR 0x09, CHR 0x0A, CHR 0x0B, CHR 0x0C, CHR 0x0D, CHR 0x20, CHR 0xA0])"

definition digitVal :: "nat \<Rightarrow> char \<Rightarrow> nat option" where
  "digitVal r c =
     (let n = (of_char c :: nat);
          v = (if 48 \<le> n \<and> n \<le> 57 then Some (n - 48)
               else if 97 \<le> n \<and> n \<le> 122 then Some (n - 87)
               else if 65 \<le> n \<and> n \<le> 90 then Some (n - 55)
               else None)
      in case v of
           None \<Rightarrow> None
         | Some d \<Rightarrow> if d < r then Some d else None)"

definition digitsValue :: "nat \<Rightarrow> string \<Rightarrow> nat" where
  "digitsValue r ds =
     foldl (\<lambda>a c. case digitVal r c of None \<Rightarrow> a | Some d \<Rightarrow> r * a + d) 0 ds"

definition parseInt :: "string \<Rightarrow> int option" where
  "parseInt s =
     (let S = dropWhile isWhiteSpace s;
          sign = (if take 1 S = ''-'' then - 1 else (1 :: int));
          S1 = (if take 1 S = ''-'' \<or> take 1 S = ''+'' then drop 1 S else S);
          hex = (take 2 S1 = ''0x'' \<or> take 2 S1 = ''0X'');
          R = (if hex then 16 else 10);
          S2 = (if hex then drop 2 S1 else S1);
          ds = takeWhile (\<lambda>c. digitVal R c \<noteq> None) S2
      in if ds = [] then None else Some (sign * int (digitsValue R ds)))"

text \<open>
  \<^verbatim>\<open>parseInt(page.id.split('-')[1])\<close>: a missing second token is \<^verbatim>\<open>undefined\<close>,
  which \<^verbatim>\<open>parseInt\<close> converts to the string \<^verbatim>\<open>"undefined"\<close> first.
\<close>

definition idPageIndex :: "string \<Rightarrow> int option" where
  "idPageIndex pid =
     parseInt (case index (split CHR ''-'' pid) 1 of
                 None \<Rightarrow> ''undefined''
               | Some t \<Rightarrow> t)"

section \<open>The external document library and the browser\<close>

text \<open>
  \<^verbatim>\<open>pdf-lib\<close> is consumed as a black box. A parsed document is the list of its pages
  (\<open>'p\<close> is the content of one page), raw bytes are \<open>'b\<close>. The two calls that can
  throw on well-typed arguments are parameters: \<^verbatim>\<open>PDFDocument.load\<close> and
  \<^verbatim>\<open>save\<close>, with \<open>None\<close> for a thrown exception. \<^verbatim>\<open>URL.createObjectURL\<close> is the
  browser's; the URL it returns is used only as the \<^verbatim>\<open>src\<close> of a preview.
\<close>

record ('b, 'p) pdf_lib =
  load_doc :: "'b \<Rightarrow> 'p list option"
  save_doc :: "'p list \<Rightarrow> 'b option"
  createObjectURL :: "'b \<Rightarrow> string"

text \<open>
  \<^verbatim>\<open>dst.copyPages(src, [i])\<close> followed by taking the single copied page: the page
  at index \<open>i\<close> of the source; an index outside the document throws.
\<close>

definition copyPage :: "'p list \<Rightarrow> int \<Rightarrow> 'p option" where
  "copyPage src i = (if 0 \<le> i \<and> i < int (length src) then Some (src ! nat i) else None)"

text \<open>What a handler does to the outside world, in order.\<close>

datatype 'b effect =
    Alert string
  | ConsoleError string
  | SaveAs 'b string

section \<open>State of the organizer component\<close>

record PdfPage =
  id_page :: string
  pageNumber :: nat
  thumbnail :: string
  originalIndex :: nat

record 'b File =
  name_file :: string
  type_file :: string
  arrayBuffer :: 'b

text \<open>
  The \<^verbatim>\<open>useState\<close> cells of \<^verbatim>\<open>PdfOrganizer\<close> (all but \<^verbatim>\<open>dragActive\<close>, the
  highlight of the upload area). The \<^verbatim>\<open>Set<string>\<close> of selected identities is a
  finite set; \<^verbatim>\<open>size\<close> is \<^const>\<open>fcard\<close>.
\<close>

record ('b, 'p) organizer =
  pdfFile :: "'b File option"
  pdfDoc :: "'p list option"
  pages :: "PdfPage list"
  isProcessing :: bool
  selectedPages :: "string fset"
  draggedPageId :: "string option"
  dragOverIndex :: "nat option"

definition initial :: "('b, 'p) organizer" where
  "initial = \<lparr>pdfFile = None, pdfDoc = None, pages = [], isProcessing = False,
              selectedPages = {||}, draggedPageId = None, dragOverIndex = None\<rparr>"

section \<open>Handlers\<close>

text \<open>
  Every handler is a function from the state it is invoked in to the state once it has
  settled, together with the effects it had. For the asynchronous handlers
  (\<^verbatim>\<open>handleFile\<close>, \<^verbatim>\<open>addPagesFromFile\<close>, \<^verbatim>\<open>savePdf\<close>) the function of this section
  is the handler from its invocation to its last line with no other event in between;
  the section on sessions cuts them at their awaits and lets other events come between.
\<close>

definition generateThumbnail :: "('b, 'p) pdf_lib \<Rightarrow> 'p list \<Rightarrow> nat \<Rightarrow> string option" where
  "generateThumbnail lib doc pageIndex =
     (case copyPage doc (int pageIndex) of
        None \<Rightarrow> None
      | Some copiedPage \<Rightarrow>
          (case save_doc lib [copiedPage] of
             None \<Rightarrow> None
           | Some pdfBytes \<Rightarrow> Some (createObjectURL lib pdfBytes)))"

text \<open>The loop of \<^verbatim>\<open>handleFile\<close> over \<open>i = 0 ..< pageCount\<close>; \<open>None\<close> when a thumbnail throws.\<close>

fun handleFile_loop ::
  "('b, 'p) pdf_lib \<Rightarrow> 'p list \<Rightarrow> nat list \<Rightarrow> PdfPage list \<Rightarrow> PdfPage list option" where
  "handleFile_loop lib pdf [] pagesList = Some pagesList"
| "handleFile_loop lib pdf (i # rest) pagesList =
     (case generateThumbnail lib pdf i of
        None \<Rightarrow> None
      | Some t \<Rightarrow>
          handleFile_loop lib pdf rest
            (pagesList @ [\<lparr>id_page = ''page-'' @ show_nat i, pageNumber = i + 1,
                           thumbnail = t, originalIndex = i\<rparr>]))"

definition loadError :: "'b effect list" where
  "loadError = [ConsoleError ''Error loading PDF:'',
                Alert ''Error loading PDF. Please ensure the file is a valid PDF document.'']"

definition handleFile ::
  "('b, 'p) pdf_lib \<Rightarrow> ('b, 'p) organizer \<Rightarrow> 'b File \<Rightarrow> ('b, 'p) organizer \<times> 'b effect list" where
  "handleFile lib s file =
     (let s1 = s\<lparr>isProcessing := True, pdfFile := Some file, selectedPages := {||}\<rparr>
      in case load_doc lib (arrayBuffer file) of
           None \<Rightarrow> (s1\<lparr>isProcessing := False\<rparr>, loadError)
         | Some pdf \<Rightarrow>
             (let s2 = s1\<lparr>pdfDoc := Some pdf\<rparr>
              in case handleFile_loop lib pdf [0 ..< length pdf] [] of
                   None \<Rightarrow> (s2\<lparr>isProcessing := False\<rparr>, loadError)
                 | Some pagesList \<Rightarrow> (s2\<lparr>pages := pagesList, isProcessing := False\<rparr>, [])))"

definition togglePageSelection :: "('b, 'p) organizer \<Rightarrow> string \<Rightarrow> ('b, 'p) organizer" where
  "togglePageSelection s pid =
     s\<lparr>selectedPages :=
         (if pid |\<in>| selectedPages s then selectedPages s |-| {|pid|}
          else finsert pid (selectedPages s))\<rparr>"

definition deleteRejected :: "'b effect list" where
  "deleteRejected = [Alert ''Cannot delete all pages. At least one page must remain.'']"

definition deleteSelectedPages ::
  "('b, 'p) organizer \<Rightarrow> ('b, 'p) organizer \<times> 'b effect list" where
  "deleteSelectedPages s =
     (if fcard (selectedPages s) = 0 then (s, [])
      else if length (pages s) = fcard (selectedPages s) then (s, deleteRejected)
      else (s\<lparr>pages := filter (\<lambda>page. \<not> id_page page |\<in>| selectedPages s) (pages s),
              selectedPages := {||}\<rparr>, []))"

text \<open>
  \<^verbatim>\<open>a.splice(i, 1)\<close> and \<^verbatim>\<open>a.splice(t, 0, x)\<close> on a copy of the array. An insertion
  point past the end is clamped to the end, as \<^const>\<open>take\<close> and \<^const>\<open>drop\<close> do.
\<close>

definition splice_out :: "nat \<Rightarrow> 'a list \<Rightarrow> 'a list" where
  "splice_out i xs = take i xs @ drop (Suc i) xs"

definition splice_in :: "nat \<Rightarrow> 'a \<Rightarrow> 'a list \<Rightarrow> 'a list" where
  "splice_in t x xs = take t xs @ x # drop t xs"

text \<open>
  \<^verbatim>\<open>movePage(fromIndex, toIndex)\<close>. The buttons pass the index of a rendered entry as
  \<open>fromIndex\<close> and its neighbour as \<open>toIndex\<close> (possibly \<open>-1\<close> or \<open>length\<close>). With
  \<open>fromIndex\<close> past the end nothing is removed and \<^verbatim>\<open>undefined\<close> is inserted; that
  ill-formed array is \<open>None\<close>.
\<close>

definition move_list :: "nat \<Rightarrow> nat \<Rightarrow> 'a list \<Rightarrow> 'a list" where
  "move_list fromIndex toIndex xs = splice_in toIndex (xs ! fromIndex) (splice_out fromIndex xs)"

definition movePage :: "('b, 'p) organizer \<Rightarrow> nat \<Rightarrow> int \<Rightarrow> ('b, 'p) organizer option" where
  "movePage s fromIndex toIndex =
     (if toIndex < 0 \<or> toIndex \<ge> int (length (pages s)) then Some s
      else if fromIndex < length (pages s)
      then Some (s\<lparr>pages := move_list fromIndex (nat toIndex) (pages s)\<rparr>)
      else None)"

text \<open>
  \<^verbatim>\<open>duplicatePage(index)\<close>; \<open>now\<close> is the value of \<^verbatim>\<open>Date.now()\<close> and \<open>rnd\<close> the
  string of \<^verbatim>\<open>Math.random()\<close> at the call. An index past the end spreads
  \<^verbatim>\<open>undefined\<close> into an entry with no fields but \<^verbatim>\<open>id\<close>: \<open>None\<close>.
\<close>

definition duplicatePage ::
  "('b, 'p) organizer \<Rightarrow> nat \<Rightarrow> nat \<Rightarrow> string \<Rightarrow> ('b, 'p) organizer option" where
  "duplicatePage s i now rnd =
     (if i < length (pages s)
      then Some (s\<lparr>pages :=
              splice_in (i + 1)
                ((pages s ! i)\<lparr>id_page := ''page-'' @ show_nat now @ ''-'' @ rnd\<rparr>)
                (pages s)\<rparr>)
      else None)"

text \<open>
  The loop of \<^verbatim>\<open>addPagesFromFile\<close>. \<^verbatim>\<open>Date.now()\<close> is read anew in every
  iteration: \<open>clock i\<close> is its value in iteration \<open>i\<close>. \<open>n\<close> is \<^verbatim>\<open>pages.length\<close>
  as the handler saw it.
\<close>

fun addPages_loop ::
  "('b, 'p) pdf_lib \<Rightarrow> (nat \<Rightarrow> nat) \<Rightarrow> nat \<Rightarrow> 'p list \<Rightarrow> nat list \<Rightarrow> PdfPage list
   \<Rightarrow> PdfPage list option" where
  "addPages_loop lib clock n newPdf [] newPages = Some newPages"
| "addPages_loop lib clock n newPdf (i # rest) newPages =
     (case generateThumbnail lib newPdf i of
        None \<Rightarrow> None
      | Some t \<Rightarrow>
          addPages_loop lib clock n newPdf rest
            (newPages @ [\<lparr>id_page = ''page-'' @ show_nat (clock i) @ ''-'' @ show_nat i,
                          pageNumber = n + i + 1, thumbnail = t, originalIndex = i\<rparr>]))"

definition addError :: "'b effect list" where
  "addError = [ConsoleError ''Error adding pages:'', Alert ''Error adding pages from PDF.'']"

text \<open>\<open>files\<close> is \<^verbatim>\<open>e.target.files\<close>; an absent list is the empty one.\<close>

definition addPagesFromFile ::
  "('b, 'p) pdf_lib \<Rightarrow> (nat \<Rightarrow> nat) \<Rightarrow> ('b, 'p) organizer \<Rightarrow> 'b File list
   \<Rightarrow> ('b, 'p) organizer \<times> 'b effect list" where
  "addPagesFromFile lib clock s files =
     (case files of
        [] \<Rightarrow> (s, [])
      | file # _ \<Rightarrow>
          (case load_doc lib (arrayBuffer file) of
             None \<Rightarrow> (s\<lparr>isProcessing := False\<rparr>, addError)
           | Some newPdf \<Rightarrow>
               (case addPages_loop lib clock (length (pages s)) newPdf [0 ..< length newPdf] [] of
                  None \<Rightarrow> (s\<lparr>isProcessing := False\<rparr>, addError)
                | Some newPages \<Rightarrow>
                    (s\<lparr>pages := pages s @ newPages, isProcessing := False\<rparr>, []))))"

text \<open>
  The loop of \<^verbatim>\<open>savePdf\<close> over the entries: \<open>newPdf\<close> is the list of pages added to
  the output document so far; \<open>None\<close> when \<^verbatim>\<open>copyPages\<close> throws.
\<close>

fun savePdf_loop :: "'p list \<Rightarrow> PdfPage list \<Rightarrow> 'p list \<Rightarrow> 'p list option" where
  "savePdf_loop originalPdf [] newPdf = Some newPdf"
| "savePdf_loop originalPdf (page # rest) newPdf =
     (case idPageIndex (id_page page) of
        None \<Rightarrow> savePdf_loop originalPdf rest newPdf
      | Some pageIndex \<Rightarrow>
          if pageIndex < int (length originalPdf)
          then (case copyPage originalPdf pageIndex of
                  None \<Rightarrow> None
                | Some copiedPage \<Rightarrow> savePdf_loop originalPdf rest (newPdf @ [copiedPage]))
          else savePdf_loop originalPdf rest newPdf)"

definition saveError :: "'b effect list" where
  "saveError = [ConsoleError ''Error saving PDF:'', Alert ''Error saving PDF. Please try again.'']"

text \<open>
  \<^verbatim>\<open>savePdf\<close>. \<^verbatim>\<open>pdfFile!.arrayBuffer()\<close> on a null file is a \<^verbatim>\<open>TypeError\<close> inside
  the \<^verbatim>\<open>try\<close>. The document is parsed again from the bytes of \<^verbatim>\<open>pdfFile\<close>.
\<close>

definition savePdf ::
  "('b, 'p) pdf_lib \<Rightarrow> ('b, 'p) organizer \<Rightarrow> ('b, 'p) organizer \<times> 'b effect list" where
  "savePdf lib s =
     (if pdfDoc s = None \<or> pages s = [] then (s, [])
      else (s\<lparr>isProcessing := False\<rparr>,
        (case pdfFile s of
           None \<Rightarrow> saveError
         | Some file \<Rightarrow>
             (case load_doc lib (arrayBuffer file) of
                None \<Rightarrow> saveError
              | Some originalPdf \<Rightarrow>
                  (case savePdf_loop originalPdf (pages s) [] of
                     None \<Rightarrow> saveError
                   | Some newPdf \<Rightarrow>
                       (case save_doc lib newPdf of
                          None \<Rightarrow> saveError
                        | Some pdfBytes \<Rightarrow>
                            [SaveAs pdfBytes (''organized-'' @ name_file file)]))))))"

text \<open>\<^verbatim>\<open>resetOrganizer\<close>; revoking the preview URLs leaves the state alone.\<close>

definition resetOrganizer :: "('b, 'p) organizer \<Rightarrow> ('b, 'p) organizer" where
  "resetOrganizer s =
     s\<lparr>pdfFile := None, pdfDoc := None, pages := [], selectedPages := {||},
       draggedPageId := None, dragOverIndex := None\<rparr>"

definition handlePageDragStart :: "('b, 'p) organizer \<Rightarrow> string \<Rightarrow> ('b, 'p) organizer" where
  "handlePageDragStart s pageId = s\<lparr>draggedPageId := Some pageId\<rparr>"

definition handlePageDragOver :: "('b, 'p) organizer \<Rightarrow> nat \<Rightarrow> ('b, 'p) organizer" where
  "handlePageDragOver s i = s\<lparr>dragOverIndex := Some i\<rparr>"

definition handlePageDragLeave :: "('b, 'p) organizer \<Rightarrow> ('b, 'p) organizer" where
  "handlePageDragLeave s = s\<lparr>dragOverIndex := None\<rparr>"

text \<open>\<^verbatim>\<open>pages.findIndex(p => p.id === pid)\<close>, with \<open>None\<close> for \<open>-1\<close>.\<close>

fun findIndex :: "string \<Rightarrow> PdfPage list \<Rightarrow> nat option" where
  "findIndex pid [] = None"
| "findIndex pid (p # ps) =
     (if id_page p = pid then Some 0
      else (case findIndex pid ps of None \<Rightarrow> None | Some k \<Rightarrow> Some (Suc k)))"

text \<open>
  \<^verbatim>\<open>handlePageDrop\<close> on the entry rendered at \<open>dropIndex\<close>. \<^verbatim>\<open>!draggedPageId\<close>
  holds for \<^verbatim>\<open>null\<close> and for the empty string.
\<close>

definition handlePageDrop :: "('b, 'p) organizer \<Rightarrow> nat \<Rightarrow> ('b, 'p) organizer" where
  "handlePageDrop s dropIndex =
     (case draggedPageId s of
        None \<Rightarrow> s
      | Some pid \<Rightarrow>
          if pid = [] then s
          else (case findIndex pid (pages s) of
             None \<Rightarrow> s\<lparr>draggedPageId := None, dragOverIndex := None\<rparr>
           | Some draggedIndex \<Rightarrow>
               if draggedIndex = dropIndex
               then s\<lparr>draggedPageId := None, dragOverIndex := None\<rparr>
               else s\<lparr>pages :=
                        splice_in (if draggedIndex < dropIndex then dropIndex - 1 else dropIndex)
                          (pages s ! draggedIndex) (splice_out draggedIndex (pages s)),
                      draggedPageId := None, dragOverIndex := None\<rparr>))"

section \<open>The merger's save\<close>

record 'b PdfFile =
  id_pdf :: string
  file_pdf :: "'b File"
  name_pdf :: string
  size_pdf :: string

text \<open>The loop of \<^verbatim>\<open>mergePdfs\<close>: every page of every file, in order.\<close>

fun mergePdfs_loop :: "('b, 'p) pdf_lib \<Rightarrow> 'b PdfFile list \<Rightarrow> 'p list \<Rightarrow> 'p list option" where
  "mergePdfs_loop lib [] mergedPdf = Some mergedPdf"
| "mergePdfs_loop lib (entry # rest) mergedPdf =
     (case load_doc lib (arrayBuffer (file_pdf entry)) of
        None \<Rightarrow> None
      | Some pdf \<Rightarrow> mergePdfs_loop lib rest (mergedPdf @ pdf))"

definition mergeError :: "'b effect list" where
  "mergeError = [ConsoleError ''Error merging PDFs:'',
                 Alert ''Error merging PDFs. Please ensure all files are valid PDF documents.'']"

text \<open>
  \<^verbatim>\<open>mergePdfs\<close> on the list \<^verbatim>\<open>pdfs\<close>, which it leaves as it is; \<open>isoString\<close> is the string
  \<^verbatim>\<open>new Date().toISOString()\<close> at the time of the save, such as
  \<^verbatim>\<open>2024-05-01T10:20:30.000Z\<close>.
\<close>

definition mergePdfs :: "('b, 'p) pdf_lib \<Rightarrow> string \<Rightarrow> 'b PdfFile list \<Rightarrow> 'b effect list" where
  "mergePdfs lib isoString pdfs =
     (if length pdfs < 2 then []
      else (case mergePdfs_loop lib pdfs [] of
              None \<Rightarrow> mergeError
            | Some mergedPdf \<Rightarrow>
                (case save_doc lib mergedPdf of
                   None \<Rightarrow> mergeError
                 | Some pdfBytes \<Rightarrow>
                     [SaveAs pdfBytes
                        (''merged-pdfs-''
                         @ (case split CHR ''T'' isoString of [] \<Rightarrow> ''undefined'' | d # _ \<Rightarrow> d)
                         @ ''.pdf'')])))"

section \<open>Sessions: the rendered controls and the handlers in flight\<close>

text \<open>
  What the user can trigger, as the JSX wires it, and the asynchronous handlers cut at
  their awaits. The upload area is rendered while \<^verbatim>\<open>pdfFile\<close> is null; otherwise the
  spinner alone is rendered while \<^verbatim>\<open>isProcessing && pages.length === 0\<close>, and the
  header, the buttons and one card per index of \<^verbatim>\<open>pages\<close> in every other state, also
  while a handler is in flight. A card passes its index, or the identity of the entry at
  that index, to its handler. The values read from the clock and the random generator
  come with the event. \<open>Settle k\<close> lets the \<open>k\<close>-th handler in flight run on from its
  await to its next state update.
\<close>

datatype 'b event =
    ChooseFile "'b File"
  | DropFiles "'b File list"
  | ClickCard nat
  | ClickDelete
  | ClickLeft nat
  | ClickRight nat
  | ClickCopy nat nat string
  | AddPages "nat \<Rightarrow> nat" "'b File list"
  | ClickSave
  | ClickReset
  | DragStart nat
  | DragOver nat
  | DragLeave
  | DropOn nat
  | Settle nat

text \<open>
  A handler in flight, with what its closure holds: \<open>Loading\<close> is \<^verbatim>\<open>handleFile\<close>
  awaiting the bytes and the parse, \<open>Rendering\<close> is \<^verbatim>\<open>handleFile\<close> after
  \<^verbatim>\<open>setPdfDoc\<close>, awaiting the thumbnails; \<open>Adding\<close> is \<^verbatim>\<open>addPagesFromFile\<close> with
  the \<^verbatim>\<open>pages.length\<close> it saw and its clock; \<open>Saving\<close> is \<^verbatim>\<open>savePdf\<close> with the
  state of the render it was invoked in.
\<close>

datatype ('b, 'p) pending =
    Loading "'b File"
  | Rendering "'p list"
  | Adding nat "nat \<Rightarrow> nat" "'b File"
  | Saving "('b, 'p) organizer"

record ('b, 'p) session =
  cells :: "('b, 'p) organizer"
  inflight :: "('b, 'p) pending list"
  effects :: "'b effect list"

definition orElse :: "'a option \<Rightarrow> 'a \<Rightarrow> 'a" where
  "orElse r d = (case r of None \<Rightarrow> d | Some v \<Rightarrow> v)"

text \<open>
  The continuation of a handler in flight, on the state as it is when the await
  resolves: the new state, what is left of the handler, and its effects. A document with
  no page has no thumbnail to await, so its load settles in one piece.
\<close>

definition settle ::
  "('b, 'p) pdf_lib \<Rightarrow> ('b, 'p) organizer \<Rightarrow> ('b, 'p) pending
   \<Rightarrow> ('b, 'p) organizer \<times> ('b, 'p) pending option \<times> 'b effect list" where
  "settle lib s job =
     (case job of
        Loading file \<Rightarrow>
          (case load_doc lib (arrayBuffer file) of
             None \<Rightarrow> (s\<lparr>isProcessing := False\<rparr>, None, loadError)
           | Some pdf \<Rightarrow>
               if pdf = []
               then (s\<lparr>pdfDoc := Some pdf, pages := [], isProcessing := False\<rparr>, None, [])
               else (s\<lparr>pdfDoc := Some pdf\<rparr>, Some (Rendering pdf), []))
      | Rendering pdf \<Rightarrow>
          (case handleFile_loop lib pdf [0 ..< length pdf] [] of
             None \<Rightarrow> (s\<lparr>isProcessing := False\<rparr>, None, loadError)
           | Some pagesList \<Rightarrow> (s\<lparr>pages := pagesList, isProcessing := False\<rparr>, None, []))
      | Adding n clock file \<Rightarrow>
          (case load_doc lib (arrayBuffer file) of
             None \<Rightarrow> (s\<lparr>isProcessing := False\<rparr>, None, addError)
           | Some newPdf \<Rightarrow>
               (case addPages_loop lib clock n newPdf [0 ..< length newPdf] [] of
                  None \<Rightarrow> (s\<lparr>isProcessing := False\<rparr>, None, addError)
                | Some newPages \<Rightarrow>
                    (s\<lparr>pages := pages s @ newPages, isProcessing := False\<rparr>, None, [])))
      | Saving snapshot \<Rightarrow> (s\<lparr>isProcessing := False\<rparr>, None, snd (savePdf lib snapshot)))"

definition replace_pending :: "nat \<Rightarrow> 'a option \<Rightarrow> 'a list \<Rightarrow> 'a list" where
  "replace_pending k r ts = (case r of None \<Rightarrow> take k ts @ drop (Suc k) ts | Some t \<Rightarrow> ts[k := t])"

definition settle_step ::
  "('b, 'p) pdf_lib \<Rightarrow> ('b, 'p) session \<Rightarrow> nat \<Rightarrow> ('b, 'p) session" where
  "settle_step lib \<sigma> k =
     (if k < length (inflight \<sigma>)
      then (case settle lib (cells \<sigma>) (inflight \<sigma> ! k) of
              (s', r, es) \<Rightarrow>
                \<lparr>cells = s', inflight = replace_pending k r (inflight \<sigma>),
                 effects = effects \<sigma> @ es\<rparr>)
      else \<sigma>)"

text \<open>The lines of \<^verbatim>\<open>handleFile\<close> before its first await.\<close>

definition start_load :: "('b, 'p) session \<Rightarrow> 'b File \<Rightarrow> ('b, 'p) session" where
  "start_load \<sigma> file =
     \<sigma>\<lparr>cells := (cells \<sigma>)\<lparr>isProcessing := True, pdfFile := Some file, selectedPages := {||}\<rparr>,
       inflight := inflight \<sigma> @ [Loading file]\<rparr>"

text \<open>The upload area: the file input and the drop zone.\<close>

fun upload_step :: "('b, 'p) session \<Rightarrow> 'b event \<Rightarrow> ('b, 'p) session" where
  "upload_step \<sigma> (ChooseFile f) = start_load \<sigma> f"
| "upload_step \<sigma> (DropFiles fs) =
     (case fs of
        [] \<Rightarrow> \<sigma>
      | f # _ \<Rightarrow> if type_file f = ''application/pdf'' then start_load \<sigma> f else \<sigma>)"
| "upload_step \<sigma> _ = \<sigma>"

text \<open>
  The cards and their buttons: the handlers without an await, as functions of the state.
  The alert of a rejected delete is the only effect among them.
\<close>

fun cards_step :: "('b, 'p) organizer \<Rightarrow> 'b event \<Rightarrow> ('b, 'p) organizer" where
  "cards_step s (ClickCard k) =
     (if k < length (pages s) then togglePageSelection s (id_page (pages s ! k)) else s)"
| "cards_step s ClickDelete =
     (if fcard (selectedPages s) = 0 then s else fst (deleteSelectedPages s))"
| "cards_step s (ClickLeft k) =
     (if k < length (pages s) \<and> k \<noteq> 0 then orElse (movePage s k (int k - 1)) s else s)"
| "cards_step s (ClickRight k) =
     (if k < length (pages s) \<and> k \<noteq> length (pages s) - 1
      then orElse (movePage s k (int k + 1)) s else s)"
| "cards_step s (ClickCopy k now rnd) =
     (if k < length (pages s) then orElse (duplicatePage s k now rnd) s else s)"
| "cards_step s ClickReset = resetOrganizer s"
| "cards_step s (DragStart k) =
     (if k < length (pages s) then handlePageDragStart s (id_page (pages s ! k)) else s)"
| "cards_step s (DragOver k) =
     (if k < length (pages s) then handlePageDragOver s k else s)"
| "cards_step s DragLeave = (if pages s = [] then s else handlePageDragLeave s)"
| "cards_step s (DropOn k) = (if k < length (pages s) then handlePageDrop s k else s)"
| "cards_step s _ = s"

text \<open>
  The organizer view: \<^verbatim>\<open>Add Pages\<close> and \<^verbatim>\<open>Save PDF\<close> run up to their first await
  and stay in flight; the rest is \<^const>\<open>cards_step\<close>. \<^verbatim>\<open>Save PDF\<close> is disabled while
  \<^verbatim>\<open>isProcessing || pages.length === 0\<close>, and \<^verbatim>\<open>savePdf\<close> returns at once without
  \<^verbatim>\<open>pdfDoc\<close>.
\<close>

fun controls_step :: "('b, 'p) session \<Rightarrow> 'b event \<Rightarrow> ('b, 'p) session" where
  "controls_step \<sigma> (AddPages clock fs) =
     (case fs of
        [] \<Rightarrow> \<sigma>
      | f # _ \<Rightarrow>
          \<sigma>\<lparr>cells := (cells \<sigma>)\<lparr>isProcessing := True\<rparr>,
            inflight := inflight \<sigma> @ [Adding (length (pages (cells \<sigma>))) clock f]\<rparr>)"
| "controls_step \<sigma> ClickSave =
     (if isProcessing (cells \<sigma>) \<or> pages (cells \<sigma>) = [] \<or> pdfDoc (cells \<sigma>) = None then \<sigma>
      else \<sigma>\<lparr>cells := (cells \<sigma>)\<lparr>isProcessing := True\<rparr>,
             inflight := inflight \<sigma> @ [Saving (cells \<sigma>)]\<rparr>)"
| "controls_step \<sigma> ClickDelete =
     (if fcard (selectedPages (cells \<sigma>)) = 0 then \<sigma>
      else \<sigma>\<lparr>cells := cards_step (cells \<sigma>) ClickDelete,
             effects := effects \<sigma> @ snd (deleteSelectedPages (cells \<sigma>))\<rparr>)"
| "controls_step \<sigma> ev = \<sigma>\<lparr>cells := cards_step (cells \<sigma>) ev\<rparr>"

definition session_step ::
  "('b, 'p) pdf_lib \<Rightarrow> ('b, 'p) session \<Rightarrow> 'b event \<Rightarrow> ('b, 'p) session" where
  "session_step lib \<sigma> ev =
     (case ev of
        Settle k \<Rightarrow> settle_step lib \<sigma> k
      | _ \<Rightarrow>
          if pdfFile (cells \<sigma>) = None then upload_step \<sigma> ev
          else if isProcessing (cells \<sigma>) \<and> pages (cells \<sigma>) = [] then \<sigma>
          else controls_step \<sigma> ev)"


text \<open>The identities of the entries of the sequence.\<close>

definition identities :: "('b, 'p) organizer \<Rightarrow> string set" where
  "identities s = set (map id_page (pages s))"

section \<open>Notions used in the statements\<close>

text \<open>A non-empty string of decimal digits.\<close>

definition decimal :: "string \<Rightarrow> bool" where
  "decimal s = (s \<noteq> [] \<and> (\<forall>c\<in>set s. \<exists>d<10. c = digit_char d))"

text \<open>
  Whether the identity of an entry, split on \<^verbatim>\<open>-\<close>, has a second token that reads as
  an integer below the page count of the document, and the page that index selects.
\<close>

definition id_valid :: "'p list \<Rightarrow> string \<Rightarrow> bool" where
  "id_valid originalPdf pid =
     (case idPageIndex pid of
        None \<Rightarrow> False
      | Some k \<Rightarrow> k < int (length originalPdf))"

definition yields_valid_index :: "'p list \<Rightarrow> PdfPage \<Rightarrow> bool" where
  "yields_valid_index originalPdf page = id_valid originalPdf (id_page page)"

definition indexed_page :: "'p list \<Rightarrow> PdfPage \<Rightarrow> 'p" where
  "indexed_page originalPdf page = originalPdf ! nat (orElse (idPageIndex (id_page page)) 0)"

text \<open>
  The permutation one move asks for on a sequence of \<open>n\<close> entries, as the list of the
  old positions in their new order, and the composition of the permutations of a list
  of moves. \<open>movePages\<close> is a run of \<^const>\<open>movePage\<close> calls, one per pair.
\<close>

definition move_perm :: "nat \<Rightarrow> nat \<Rightarrow> int \<Rightarrow> nat list" where
  "move_perm n i t = (if t < 0 \<or> t \<ge> int n then [0 ..< n] else move_list i (nat t) [0 ..< n])"

fun moves_perm :: "nat \<Rightarrow> (nat \<times> int) list \<Rightarrow> nat list" where
  "moves_perm n [] = [0 ..< n]"
| "moves_perm n ((i, t) # ms) = map (\<lambda>k. move_perm n i t ! k) (moves_perm n ms)"

fun movePages ::
  "('b, 'p) organizer \<Rightarrow> (nat \<times> int) list \<Rightarrow> ('b, 'p) organizer option" where
  "movePages s [] = Some s"
| "movePages s ((i, t) # ms) =
     (case movePage s i t of None \<Rightarrow> None | Some s' \<Rightarrow> movePages s' ms)"

text \<open>Every selected identity is the identity of an entry of the sequence.\<close>

definition selection_consistent :: "('b, 'p) organizer \<Rightarrow> bool" where
  "selection_consistent s = (fset (selectedPages s) \<subseteq> identities s)"


section \<open>A small library instance and sample sessions\<close>

text \<open>
  A small instance of the library to run the handlers on: the bytes of a document are
  the marker \<^verbatim>\<open>%PDF\<close> followed by its pages, each page a string.
\<close>

definition toy_lib :: "(string list, string) pdf_lib" where
  "toy_lib =
     \<lparr>load_doc = (\<lambda>bytes. case bytes of
                     [] \<Rightarrow> None
                   | h # ps \<Rightarrow> if h = ''%PDF'' then Some ps else None),
      save_doc = (\<lambda>ps. Some (''%PDF'' # ps)),
      createObjectURL = (\<lambda>bytes. ''blob:'' @ concat bytes)\<rparr>"

definition toy_file :: "string \<Rightarrow> string list \<Rightarrow> string list File" where
  "toy_file n ps = \<lparr>name_file = n, type_file = ''application/pdf'', arrayBuffer = ''%PDF'' # ps\<rparr>"

text \<open>Sample sessions on the small library.\<close>

definition two_pages :: "(string list, string) organizer" where
  "two_pages = fst (handleFile toy_lib initial (toy_file ''in.pdf'' [''A'', ''B'']))"

definition four_pages :: "(string list, string) organizer" where
  "four_pages = fst (handleFile toy_lib initial (toy_file ''in.pdf'' [''P0'', ''P1'', ''P2'', ''P3'']))"

definition four_pages_copy :: "(string list, string) organizer" where
  "four_pages_copy = orElse (duplicatePage four_pages 3 1700000000000 ''0.5'') four_pages"

definition two_pages_more :: "(string list, string) organizer" where
  "two_pages_more =
     fst (addPagesFromFile toy_lib (\<lambda>i. 1700000000000) two_pages [toy_file ''more.pdf'' [''C'']])"

definition broken_file :: "string list File" where
  "broken_file = \<lparr>name_file = ''x.pdf'', type_file = ''application/pdf'', arrayBuffer = [''garbage'']\<rparr>"

definition merge_files :: "string list PdfFile list" where
  "merge_files =
     [\<lparr>id_pdf = ''17000000000000.1'', file_pdf = toy_file ''a.pdf'' [''A''], name_pdf = ''a.pdf'',
       size_pdf = ''1 KB''\<rparr>,
      \<lparr>id_pdf = ''17000000000000.2'', file_pdf = toy_file ''b.pdf'' [''B'', ''C''], name_pdf = ''b.pdf'',
       size_pdf = ''2 KB''\<rparr>]"







section \<open>Facts about the string helpers\<close>

lemma digit_cases: "d < 10 \<Longrightarrow> d \<in> set [0, 1, 2, 3, 4, 5, 6, 7, 8, 9 :: nat]"
  by auto

lemma digitVal_digit_char: "d < 10 \<Longrightarrow> digitVal 10 (digit_char d) = Some d"
  using digit_cases[of d] by (auto simp: digit_char_def digitVal_def)

lemma show_nat_digits: "c \<in> set (show_nat n) \<Longrightarrow> \<exists>d<10. c = digit_char d"
proof (induction n rule: show_nat.induct)
  case (1 n)
  show ?case
  proof (cases "n < 10")
    case True
    with "1.prems" show ?thesis by (auto simp: show_nat.simps[of n])
  next
    case False
    with "1.prems" have "c \<in> set (show_nat (n div 10)) \<or> c = digit_char (n mod 10)"
      by (auto simp: show_nat.simps[of n])
    then show ?thesis
    proof
      assume "c \<in> set (show_nat (n div 10))"
      with "1.IH" False show ?thesis by blast
    next
      assume "c = digit_char (n mod 10)"
      moreover have "n mod 10 < 10" by simp
      ultimately show ?thesis by blast
    qed
  qed
qed

lemma show_nat_nonempty: "show_nat n \<noteq> []"
  by (subst show_nat.simps) simp

lemma digitsValue_show_nat: "digitsValue 10 (show_nat n) = n"
proof (induction n rule: show_nat.induct)
  case (1 n)
  show ?case
  proof (cases "n < 10")
    case True
    then show ?thesis
      by (simp add: show_nat.simps[of n] digitsValue_def digitVal_digit_char)
  next
    case False
    with "1.IH" have ih: "digitsValue 10 (show_nat (n div 10)) = n div 10" by simp
    have "digitsValue 10 (show_nat n) = 10 * digitsValue 10 (show_nat (n div 10)) + n mod 10"
      using False by (simp add: show_nat.simps[of n] digitsValue_def digitVal_digit_char)
    with ih show ?thesis by simp
  qed
qed


lemma split_no_sep: "c \<notin> set s \<Longrightarrow> split c s = [s]"
  by (induction s) auto

lemma split_append_sep: "c \<notin> set a \<Longrightarrow> split c (a @ c # b) = a # split c b"
  by (induction a) auto

lemma split_tokens: "t \<in> set (split c s) \<Longrightarrow> c \<notin> set t"
  by (induction s arbitrary: t) (auto split: if_splits list.splits)

lemma split_nonempty: "split c s \<noteq> []"
  by (induction s) (auto split: list.splits)

lemma index_in_set: "index xs i = Some x \<Longrightarrow> x \<in> set xs"
  by (induction xs i rule: index.induct) auto

lemma digit_char_not_special:
  "d < 10 \<Longrightarrow> \<not> isWhiteSpace (digit_char d) \<and> digit_char d \<notin> set ''-+xX''"
  using digit_cases[of d] by (auto simp: digit_char_def isWhiteSpace_def)

lemma decimal_show_nat: "decimal (show_nat n)"
  unfolding decimal_def using show_nat_digits show_nat_nonempty by blast

lemma parseInt_decimal:
  assumes "decimal s"
  shows "parseInt s = Some (int (digitsValue 10 s))"
proof -
  from assms obtain a t where s: "s = a # t" by (cases s) (auto simp: decimal_def)
  from assms have dig: "\<And>c. c \<in> set s \<Longrightarrow> \<exists>d<10. c = digit_char d"
    by (auto simp: decimal_def)
  have a: "\<not> isWhiteSpace a" "a \<noteq> CHR ''-''" "a \<noteq> CHR ''+''"
    using dig[of a] digit_char_not_special by (auto simp: s)
  have t: "take 1 t \<noteq> ''x''" "take 1 t \<noteq> ''X''"
  proof -
    show "take 1 t \<noteq> ''x''"
    proof (cases t)
      case (Cons b u)
      then show ?thesis using dig[of b] digit_char_not_special by (auto simp: s)
    qed simp
    show "take 1 t \<noteq> ''X''"
    proof (cases t)
      case (Cons b u)
      then show ?thesis using dig[of b] digit_char_not_special by (auto simp: s)
    qed simp
  qed
  have all: "takeWhile (\<lambda>c. digitVal 10 c \<noteq> None) s = s"
    using dig digitVal_digit_char by fastforce
  have two: "take 2 (a # t) = a # take 1 t"
    by (simp add: numeral_2_eq_2)
  show ?thesis
    using a t all unfolding parseInt_def Let_def s two
    by simp
qed

lemma parseInt_show_nat: "parseInt (show_nat n) = Some (int n)"
  by (simp add: parseInt_decimal decimal_show_nat digitsValue_show_nat)

lemma dash_not_in_show_nat: "CHR ''-'' \<notin> set (show_nat n)"
proof
  assume "CHR ''-'' \<in> set (show_nat n)"
  then obtain d where "d < 10" and "CHR ''-'' = digit_char d"
    using show_nat_digits by blast
  then show False
    using digit_char_not_special[of d] by simp
qed

lemma idPageIndex_loaded: "idPageIndex (''page-'' @ show_nat i) = Some (int i)"
proof -
  have "split CHR ''-'' (''page'' @ CHR ''-'' # show_nat i) = [''page'', show_nat i]"
    by (subst split_append_sep) (simp_all add: split_no_sep dash_not_in_show_nat)
  then show ?thesis
    by (simp add: idPageIndex_def parseInt_show_nat)
qed

lemma idPageIndex_stamped:
  "idPageIndex (''page-'' @ show_nat now @ ''-'' @ rest) = Some (int now)"
proof -
  have "split CHR ''-'' (''page'' @ CHR ''-'' # (show_nat now @ CHR ''-'' # rest))
        = ''page'' # show_nat now # split CHR ''-'' rest"
    by (subst split_append_sep, simp, subst split_append_sep) (simp_all add: dash_not_in_show_nat)
  then show ?thesis
    by (simp add: idPageIndex_def parseInt_show_nat)
qed

lemma parseInt_nonneg:
  assumes "CHR ''-'' \<notin> set t" and "parseInt t = Some k"
  shows "0 \<le> k"
proof -
  have "take 1 (dropWhile isWhiteSpace t) \<noteq> ''-''"
  proof
    assume "take 1 (dropWhile isWhiteSpace t) = ''-''"
    then have "CHR ''-'' \<in> set (take 1 (dropWhile isWhiteSpace t))" by simp
    then have "CHR ''-'' \<in> set t"
      by (meson in_set_takeD set_dropWhileD)
    with assms(1) show False by simp
  qed
  with assms(2) show ?thesis
    by (auto simp: parseInt_def Let_def split: if_splits)
qed

lemma parseInt_undefined: "parseInt ''undefined'' = None"
  by (simp add: parseInt_def isWhiteSpace_def digitVal_def)

lemma idPageIndex_nonneg: "idPageIndex pid = Some k \<Longrightarrow> 0 \<le> k"
proof -
  assume h: "idPageIndex pid = Some k"
  show ?thesis
  proof (cases "index (split CHR ''-'' pid) 1")
    case None
    with h show ?thesis by (simp add: idPageIndex_def parseInt_undefined)
  next
    case (Some t)
    then have "CHR ''-'' \<notin> set t"
      using index_in_set split_tokens by fastforce
    with h Some show ?thesis
      by (auto simp: idPageIndex_def intro: parseInt_nonneg)
  qed
qed

lemmas idPageIndex_loaded_simp = idPageIndex_loaded[simplified]

lemmas idPageIndex_stamped_simp = idPageIndex_stamped[simplified]

section \<open>What the save loop puts into the output\<close>

lemma savePdf_loop_filter:
  "savePdf_loop orig ps acc
   = Some (acc @ map (indexed_page orig) (filter (yields_valid_index orig) ps))"
proof (induction ps arbitrary: acc)
  case Nil
  show ?case by simp
next
  case (Cons p ps)
  show ?case
  proof (cases "idPageIndex (id_page p)")
    case None
    then show ?thesis by (simp add: Cons.IH yields_valid_index_def id_valid_def)
  next
    case (Some k)
    then have "0 \<le> k" by (rule idPageIndex_nonneg)
    with Some show ?thesis
      by (simp add: Cons.IH yields_valid_index_def id_valid_def indexed_page_def copyPage_def
          orElse_def)
  qed
qed

lemma output_by_ids:
  "map (indexed_page orig) (filter (yields_valid_index orig) ps)
   = map (\<lambda>pid. orig ! nat (orElse (idPageIndex pid) 0)) (filter (id_valid orig) (map id_page ps))"
  by (induction ps) (auto simp: indexed_page_def yields_valid_index_def)

lemma loaded_ids_output:
  "map (\<lambda>pid. orig ! nat (orElse (idPageIndex pid) 0))
       (filter (id_valid orig) (map (\<lambda>i. ''page-'' @ show_nat i) [0 ..< length orig]))
   = orig"
proof -
  have "filter (id_valid orig) (map (\<lambda>i. ''page-'' @ show_nat i) [0 ..< length orig])
        = map (\<lambda>i. ''page-'' @ show_nat i) [0 ..< length orig]"
    by (rule filter_True) (auto simp: id_valid_def idPageIndex_loaded_simp)
  moreover have "map (\<lambda>pid. orig ! nat (orElse (idPageIndex pid) 0))
                   (map (\<lambda>i. ''page-'' @ show_nat i) [0 ..< length orig])
                 = map (\<lambda>i. orig ! i) [0 ..< length orig]"
    by (simp add: idPageIndex_loaded_simp orElse_def)
  ultimately show ?thesis by (simp add: map_nth)
qed

section \<open>Sample sessions\<close>

text \<open>Unfolding the handlers on concrete inputs.\<close>

lemmas run_handlers =
  handleFile_def toy_lib_def toy_file_def initial_def generateThumbnail_def copyPage_def
  show_nat.simps digit_char_def savePdf_def idPageIndex_def parseInt_def isWhiteSpace_def
  digitVal_def digitsValue_def duplicatePage_def splice_in_def splice_out_def orElse_def upt_rec

lemma two_pages_state:
  "two_pages =
     \<lparr>pdfFile = Some (toy_file ''in.pdf'' [''A'', ''B'']), pdfDoc = Some [''A'', ''B''],
      pages = [\<lparr>id_page = ''page-0'', pageNumber = 1, thumbnail = ''blob:%PDFA'', originalIndex = 0\<rparr>,
               \<lparr>id_page = ''page-1'', pageNumber = 2, thumbnail = ''blob:%PDFB'', originalIndex = 1\<rparr>],
      isProcessing = False, selectedPages = {||}, draggedPageId = None, dragOverIndex = None\<rparr>"
  by (simp add: two_pages_def run_handlers)

lemma four_pages_state:
  "four_pages =
     \<lparr>pdfFile = Some (toy_file ''in.pdf'' [''P0'', ''P1'', ''P2'', ''P3'']),
      pdfDoc = Some [''P0'', ''P1'', ''P2'', ''P3''],
      pages = [\<lparr>id_page = ''page-0'', pageNumber = 1, thumbnail = ''blob:%PDFP0'', originalIndex = 0\<rparr>,
               \<lparr>id_page = ''page-1'', pageNumber = 2, thumbnail = ''blob:%PDFP1'', originalIndex = 1\<rparr>,
               \<lparr>id_page = ''page-2'', pageNumber = 3, thumbnail = ''blob:%PDFP2'', originalIndex = 2\<rparr>,
               \<lparr>id_page = ''page-3'', pageNumber = 4, thumbnail = ''blob:%PDFP3'', originalIndex = 3\<rparr>],
      isProcessing = False, selectedPages = {||}, draggedPageId = None, dragOverIndex = None\<rparr>"
  by (simp add: four_pages_def run_handlers)





section \<open>Loading\<close>

lemma handleFile_loop_pages:
  assumes "handleFile_loop lib pdf is acc = Some ps"
  shows "map id_page ps = map id_page acc @ map (\<lambda>i. ''page-'' @ show_nat i) is"
  using assms
proof (induction "is" arbitrary: acc)
  case Nil
  then show ?case by simp
next
  case (Cons i "is")
  then show ?case
    by (auto split: option.splits)
qed

lemma handleFile_loop_length:
  "handleFile_loop lib pdf is acc = Some ps \<Longrightarrow> length ps = length acc + length is"
  by (induction "is" arbitrary: acc) (auto split: option.splits)

lemma handleFile_ok:
  assumes "load_doc lib (arrayBuffer file) = Some doc"
    and "snd (handleFile lib s file) = []"
  shows "\<exists>ps. handleFile_loop lib doc [0 ..< length doc] [] = Some ps
          \<and> fst (handleFile lib s file)
            = s\<lparr>isProcessing := False, pdfFile := Some file, selectedPages := {||},
                pdfDoc := Some doc, pages := ps\<rparr>"
  using assms
  by (auto simp: handleFile_def Let_def loadError_def split: option.splits)

text \<open>
  C4: for a source document with \<open>P \<ge> 1\<close> pages, \<^verbatim>\<open>Load\<close> (\<^const>\<open>handleFile\<close>
  settling without an error) followed at once by \<^verbatim>\<open>Materialize\<close> (\<^const>\<open>savePdf\<close>)
  builds an output document with exactly the \<open>P\<close> pages of the input, in the same
  order, and delivers its serialization.
\<close>

theorem C4_load_then_save_round_trip:
  assumes "load_doc lib (arrayBuffer file) = Some doc"
    and "doc \<noteq> []"
    and "snd (handleFile lib s file) = []"
  shows "length (pages (fst (handleFile lib s file))) = length doc
       \<and> savePdf_loop doc (pages (fst (handleFile lib s file))) [] = Some doc
       \<and> snd (savePdf lib (fst (handleFile lib s file)))
         = (case save_doc lib doc of
              None \<Rightarrow> saveError
            | Some pdfBytes \<Rightarrow> [SaveAs pdfBytes (''organized-'' @ name_file file)])"
proof -
  from handleFile_ok[OF assms(1,3)] obtain ps where
    loop: "handleFile_loop lib doc [0 ..< length doc] [] = Some ps" and
    st: "fst (handleFile lib s file)
         = s\<lparr>isProcessing := False, pdfFile := Some file, selectedPages := {||},
             pdfDoc := Some doc, pages := ps\<rparr>"
    by blast
  from loop have len: "length ps = length doc"
    using handleFile_loop_length by fastforce
  from loop have ids: "map id_page ps = map (\<lambda>i. ''page-'' @ show_nat i) [0 ..< length doc]"
    using handleFile_loop_pages by fastforce
  have out: "savePdf_loop doc ps [] = Some doc"
    unfolding savePdf_loop_filter output_by_ids ids loaded_ids_output by simp
  from len assms(2) have ne: "ps \<noteq> []" by auto
  show ?thesis
    using len out ne assms(1) by (simp add: st savePdf_def)
qed

theorem C4_load_then_save_round_trip_witness:
  "load_doc toy_lib (arrayBuffer (toy_file ''in.pdf'' [''A'', ''B''])) = Some [''A'', ''B'']
   \<and> snd (handleFile toy_lib initial (toy_file ''in.pdf'' [''A'', ''B''])) = []
   \<and> length (pages (fst (handleFile toy_lib initial (toy_file ''in.pdf'' [''A'', ''B''])))) = 2
   \<and> savePdf_loop [''A'', ''B'']
        (pages (fst (handleFile toy_lib initial (toy_file ''in.pdf'' [''A'', ''B''])))) []
      = Some [''A'', ''B'']
   \<and> snd (savePdf toy_lib (fst (handleFile toy_lib initial (toy_file ''in.pdf'' [''A'', ''B'']))))
      = [SaveAs [''%PDF'', ''A'', ''B''] ''organized-in.pdf'']"
proof -
  have h1: "load_doc toy_lib (arrayBuffer (toy_file ''in.pdf'' [''A'', ''B''])) = Some [''A'', ''B'']"
    by (simp add: toy_lib_def toy_file_def)
  have h2: "[''A'', ''B''] \<noteq> ([] :: string list)"
    by simp
  have h3: "snd (handleFile toy_lib initial (toy_file ''in.pdf'' [''A'', ''B''])) = []"
    by (simp add: run_handlers)
  have name: "name_file (toy_file ''in.pdf'' [''A'', ''B'']) = ''in.pdf''"
    by (simp add: toy_file_def)
  have save: "save_doc toy_lib [''A'', ''B''] = Some [''%PDF'', ''A'', ''B'']"
    by (simp add: toy_lib_def)
  from C4_load_then_save_round_trip[OF h1 h2 h3] h1 h3 show ?thesis
    by (simp add: name save)
qed

section \<open>Duplicating\<close>

text \<open>
  \<^const>\<open>duplicatePage\<close> puts the copy right behind the entry it copies, with the same
  \<^const>\<open>originalIndex\<close> and an identity no entry of the initial load carries.
\<close>

lemma duplicatePage_inserts:
  assumes "i < length (pages s)"
  shows "\<exists>s'. duplicatePage s i now rnd = Some s'
          \<and> length (pages s') = length (pages s) + 1
          \<and> take (i + 1) (pages s') = take (i + 1) (pages s)
          \<and> pages s' ! (i + 1) = (pages s ! i)\<lparr>id_page := ''page-'' @ show_nat now @ ''-'' @ rnd\<rparr>
          \<and> originalIndex (pages s' ! (i + 1)) = originalIndex (pages s ! i)
          \<and> drop (i + 2) (pages s') = drop (i + 1) (pages s)"
  using assms by (simp add: duplicatePage_def splice_in_def nth_append)

lemma duplicate_differs_from_loaded:
  "''page-'' @ show_nat now @ ''-'' @ rnd \<noteq> ''page-'' @ show_nat k"
proof
  assume "''page-'' @ show_nat now @ ''-'' @ rnd = ''page-'' @ show_nat k"
  then have "show_nat now @ ''-'' @ rnd = show_nat k" by simp
  then have "CHR ''-'' \<in> set (show_nat k)"
    by (metis append_Cons in_set_conv_decomp)
  then show False by (simp add: dash_not_in_show_nat)
qed

section \<open>Identities stamped with the clock\<close>

lemma stamped_invalid:
  "length orig \<le> now \<Longrightarrow> \<not> id_valid orig (''page-'' @ show_nat now @ ''-'' @ rest)"
  by (simp add: id_valid_def idPageIndex_stamped_simp)

lemma addPages_loop_ids:
  assumes "addPages_loop lib clock n newPdf is acc = Some ps"
  shows "map id_page ps
         = map id_page acc @ map (\<lambda>i. ''page-'' @ show_nat (clock i) @ ''-'' @ show_nat i) is"
  using assms
proof (induction "is" arbitrary: acc)
  case Nil
  then show ?case by simp
next
  case (Cons i "is")
  then show ?case
    by (auto split: option.splits)
qed

lemma filter_by_ids:
  "filter (yields_valid_index orig) ps = [] \<longleftrightarrow> filter (id_valid orig) (map id_page ps) = []"
  by (induction ps) (auto simp: yields_valid_index_def)

lemma appended_invalid:
  assumes "addPages_loop lib clock n newPdf is [] = Some ps"
    and "\<And>i. length orig \<le> clock i"
  shows "filter (yields_valid_index orig) ps = []"
proof -
  from assms(1) have "map id_page ps
      = map (\<lambda>i. ''page-'' @ show_nat (clock i) @ ''-'' @ show_nat i) is"
    using addPages_loop_ids by fastforce
  then have "filter (id_valid orig) (map id_page ps) = []"
    using assms(2) stamped_invalid[of orig] by (auto simp: filter_empty_conv)
  then show ?thesis by (simp add: filter_by_ids)
qed

lemma addPages_pages:
  "pages (fst (addPagesFromFile lib clock s files)) = pages s
   \<or> (\<exists>file rest newPdf ps. files = file # rest
        \<and> load_doc lib (arrayBuffer file) = Some newPdf
        \<and> addPages_loop lib clock (length (pages s)) newPdf [0 ..< length newPdf] [] = Some ps
        \<and> pages (fst (addPagesFromFile lib clock s files)) = pages s @ ps)"
  by (auto simp: addPagesFromFile_def split: list.splits option.splits)

section \<open>Saving\<close>

text \<open>
  C10: the save puts into the output exactly the entries whose identity, split on
  \<^verbatim>\<open>-\<close>, has a second token that \<^verbatim>\<open>parseInt\<close> reads as a number below the page
  count of the document parsed from \<^verbatim>\<open>pdfFile\<close>, each as the page with that index,
  in sequence order; the loop never throws, and all other entries are passed over
  without an alert. An entry made by \<^const>\<open>duplicatePage\<close> or appended by
  \<^const>\<open>addPagesFromFile\<close> has the clock reading as its second token and is passed
  over whenever that reading is at least the page count.
\<close>

theorem C10_save_keeps_entries_with_valid_index:
  assumes "pdfDoc s \<noteq> None" and "pages s \<noteq> []" and "pdfFile s = Some file"
    and "load_doc lib (arrayBuffer file) = Some orig"
  shows "snd (savePdf lib s)
         = (case save_doc lib (map (indexed_page orig)
                                (filter (yields_valid_index orig) (pages s))) of
              None \<Rightarrow> saveError
            | Some pdfBytes \<Rightarrow> [SaveAs pdfBytes (''organized-'' @ name_file file)])
       \<and> (\<forall>i now rnd s'. duplicatePage s i now rnd = Some s' \<and> length orig \<le> now
            \<longrightarrow> \<not> yields_valid_index orig (pages s' ! (i + 1)))
       \<and> (\<forall>clock files. (\<forall>i. length orig \<le> clock i)
            \<longrightarrow> filter (yields_valid_index orig) (pages (fst (addPagesFromFile lib clock s files)))
                = filter (yields_valid_index orig) (pages s))"
proof (intro conjI allI impI)
  show "snd (savePdf lib s)
         = (case save_doc lib (map (indexed_page orig)
                                (filter (yields_valid_index orig) (pages s))) of
              None \<Rightarrow> saveError
            | Some pdfBytes \<Rightarrow> [SaveAs pdfBytes (''organized-'' @ name_file file)])"
    using assms by (auto simp: savePdf_def savePdf_loop_filter)
next
  fix i now rnd s'
  assume h: "duplicatePage s i now rnd = Some s' \<and> length orig \<le> now"
  then have i: "i < length (pages s)"
    by (auto simp: duplicatePage_def split: if_splits)
  with h have "id_page (pages s' ! (i + 1)) = ''page-'' @ show_nat now @ ''-'' @ rnd"
    by (auto simp: duplicatePage_def splice_in_def nth_append)
  with h show "\<not> yields_valid_index orig (pages s' ! (i + 1))"
    using stamped_invalid[of orig now rnd] by (simp add: yields_valid_index_def)
next
  fix clock :: "nat \<Rightarrow> nat" and files
  assume c: "\<forall>i. length orig \<le> clock i"
  show "filter (yields_valid_index orig) (pages (fst (addPagesFromFile lib clock s files)))
        = filter (yields_valid_index orig) (pages s)"
    using addPages_pages[of lib clock s files] appended_invalid[of lib clock _ _ _ _ orig] c
    by auto
qed



theorem C10_save_keeps_entries_with_valid_index_witness:
  "pdfDoc two_pages \<noteq> None \<and> pages two_pages \<noteq> []
   \<and> pdfFile two_pages = Some (toy_file ''in.pdf'' [''A'', ''B''])
   \<and> load_doc toy_lib (arrayBuffer (toy_file ''in.pdf'' [''A'', ''B''])) = Some [''A'', ''B'']
   \<and> snd (savePdf toy_lib two_pages)
     = (case save_doc toy_lib (map (indexed_page [''A'', ''B''])
                                (filter (yields_valid_index [''A'', ''B'']) (pages two_pages))) of
          None \<Rightarrow> saveError
        | Some pdfBytes \<Rightarrow> [SaveAs pdfBytes (''organized-'' @ name_file (toy_file ''in.pdf'' [''A'', ''B'']))])
   \<and> duplicatePage two_pages 1 1700000000000 ''0.5''
     = Some (orElse (duplicatePage two_pages 1 1700000000000 ''0.5'') two_pages)
   \<and> length [''A'', ''B''] \<le> 1700000000000
   \<and> \<not> yields_valid_index [''A'', ''B'']
         (pages (orElse (duplicatePage two_pages 1 1700000000000 ''0.5'') two_pages) ! (1 + 1))
   \<and> filter (yields_valid_index [''A'', ''B'']) (pages two_pages_more)
     = filter (yields_valid_index [''A'', ''B'']) (pages two_pages)"
proof -
  have h1: "pdfDoc two_pages \<noteq> None" and h2: "pages two_pages \<noteq> []"
    and h3: "pdfFile two_pages = Some (toy_file ''in.pdf'' [''A'', ''B''])"
    by (simp_all add: two_pages_state)
  have h4: "load_doc toy_lib (arrayBuffer (toy_file ''in.pdf'' [''A'', ''B''])) = Some [''A'', ''B'']"
    by (simp add: toy_lib_def toy_file_def)
  have d: "duplicatePage two_pages 1 1700000000000 ''0.5''
           = Some (orElse (duplicatePage two_pages 1 1700000000000 ''0.5'') two_pages)"
    by (simp add: two_pages_state duplicatePage_def orElse_def)
  have c: "\<forall>i. length [''A'', ''B''] \<le> (\<lambda>i. 1700000000000 :: nat) i"
    by simp
  note inst = C10_save_keeps_entries_with_valid_index[OF h1 h2 h3 h4]
  from inst have a: "snd (savePdf toy_lib two_pages)
     = (case save_doc toy_lib (map (indexed_page [''A'', ''B''])
                                (filter (yields_valid_index [''A'', ''B'']) (pages two_pages))) of
          None \<Rightarrow> saveError
        | Some pdfBytes \<Rightarrow> [SaveAs pdfBytes (''organized-'' @ name_file (toy_file ''in.pdf'' [''A'', ''B'']))])"
    by blast
  from inst d have b: "\<not> yields_valid_index [''A'', ''B'']
         (pages (orElse (duplicatePage two_pages 1 1700000000000 ''0.5'') two_pages) ! (1 + 1))"
    by (metis c)
  from inst c have e: "filter (yields_valid_index [''A'', ''B'']) (pages two_pages_more)
     = filter (yields_valid_index [''A'', ''B'']) (pages two_pages)"
    unfolding two_pages_more_def by simp
  from h1 h2 h3 h4 a d b e show ?thesis by simp
qed

text \<open>
  C2 on the code: a four-page document is loaded and its last entry duplicated at clock
  reading \<open>1700000000000\<close>. The copy sits right after the original and carries the same
  \<^const>\<open>originalIndex\<close>, yet the save delivers four pages: page \<open>P3\<close> once.
\<close>

theorem C2_copy_is_dropped_by_save:
  "duplicatePage four_pages 3 1700000000000 ''0.5'' = Some four_pages_copy
   \<and> map (\<lambda>p. (id_page p, originalIndex p)) (pages four_pages_copy)
     = [(''page-0'', 0), (''page-1'', 1), (''page-2'', 2), (''page-3'', 3),
        (''page-1700000000000-0.5'', 3)]
   \<and> savePdf_loop [''P0'', ''P1'', ''P2'', ''P3''] (pages four_pages_copy) []
     = Some [''P0'', ''P1'', ''P2'', ''P3'']
   \<and> snd (savePdf toy_lib four_pages_copy)
     = [SaveAs [''%PDF'', ''P0'', ''P1'', ''P2'', ''P3''] ''organized-in.pdf'']"
  by (simp add: four_pages_copy_def four_pages_state run_handlers)

text \<open>
  C3 on the code: one page is appended from a second file to a loaded two-page document.
  The save raises no alert and delivers a document of two pages for a sequence of three
  entries.
\<close>

theorem C3_save_delivers_partial_output:
  "map id_page (pages two_pages_more) = [''page-0'', ''page-1'', ''page-1700000000000-0'']
   \<and> snd (savePdf toy_lib two_pages_more)
     = [SaveAs [''%PDF'', ''A'', ''B''] ''organized-in.pdf'']"
  by (simp add: two_pages_more_def two_pages_state run_handlers addPagesFromFile_def)

section \<open>Failed loads\<close>

text \<open>
  C6: when the library cannot parse the bytes, \<^const>\<open>handleFile\<close> and
  \<^const>\<open>addPagesFromFile\<close> raise their alert and leave the page sequence as it was,
  with no entry appended. (\<^const>\<open>handleFile\<close> has by then stored the file and cleared
  the selection.)
\<close>

theorem C6_unparsable_input_leaves_sequence:
  assumes "load_doc lib (arrayBuffer file) = None"
  shows "handleFile lib s file
           = (s\<lparr>pdfFile := Some file, selectedPages := {||}, isProcessing := False\<rparr>, loadError)
       \<and> pages (fst (handleFile lib s file)) = pages s
       \<and> addPagesFromFile lib clock s (file # rest) = (s\<lparr>isProcessing := False\<rparr>, addError)
       \<and> pages (fst (addPagesFromFile lib clock s (file # rest))) = pages s"
  using assms by (simp add: handleFile_def addPagesFromFile_def)

theorem C6_unparsable_input_leaves_sequence_witness:
  "load_doc toy_lib (arrayBuffer broken_file) = None
   \<and> pages (fst (handleFile toy_lib two_pages broken_file)) = pages two_pages
   \<and> snd (handleFile toy_lib two_pages broken_file) = loadError
   \<and> addPagesFromFile toy_lib (\<lambda>i. 1700000000000) two_pages [broken_file]
     = (two_pages, addError)"
proof -
  have h: "load_doc toy_lib (arrayBuffer broken_file) = None"
    by (simp add: toy_lib_def broken_file_def)
  have p: "two_pages\<lparr>isProcessing := False\<rparr> = two_pages"
    by (simp add: two_pages_state)
  from C6_unparsable_input_leaves_sequence[OF h, of two_pages "\<lambda>i. 1700000000000" "[]"] h p
  show ?thesis by simp
qed

section \<open>Selecting\<close>

text \<open>
  C7, as the code has it: \<^const>\<open>togglePageSelection\<close> flips the membership of the
  identity it is given, whether or not an entry carries that identity; it leaves every
  other membership and every other part of the state alone, and toggling twice restores
  the state. The function has no check that the identity exists.
\<close>

theorem C7_toggle_ignores_existence:
  "(v |\<in>| selectedPages (togglePageSelection s v) \<longleftrightarrow> v |\<notin>| selectedPages s)
   \<and> (\<forall>w. w \<noteq> v \<longrightarrow>
         (w |\<in>| selectedPages (togglePageSelection s v) \<longleftrightarrow> w |\<in>| selectedPages s))
   \<and> togglePageSelection s v = s\<lparr>selectedPages := selectedPages (togglePageSelection s v)\<rparr>
   \<and> togglePageSelection (togglePageSelection s v) v = s"
  by (auto simp: togglePageSelection_def finsert_absorb)

theorem C7_toggle_ignores_existence_witness:
  "''page-9'' \<notin> identities two_pages
   \<and> ''page-9'' |\<in>| selectedPages (togglePageSelection two_pages ''page-9'')
   \<and> (''page-0'' |\<in>| selectedPages (togglePageSelection two_pages ''page-9'')
        \<longleftrightarrow> ''page-0'' |\<in>| selectedPages two_pages)
   \<and> togglePageSelection (togglePageSelection two_pages ''page-9'') ''page-9'' = two_pages"
proof -
  have a: "''page-9'' \<notin> identities two_pages" and b: "''page-9'' |\<notin>| selectedPages two_pages"
    by (simp_all add: two_pages_state identities_def)
  have c: "''page-0'' \<noteq> ''page-9''" by simp
  from C7_toggle_ignores_existence[of "''page-9''" two_pages] a b c show ?thesis
    by simp
qed

text \<open>
  C7 as stated fails: toggling an identity that no entry carries is not a no-op, the
  identity joins the selection.
\<close>

theorem C7_toggle_unknown_identity_counterexample:
  "''page-9'' \<notin> identities two_pages
   \<and> selectedPages two_pages = {||}
   \<and> selectedPages (togglePageSelection two_pages ''page-9'') = {|''page-9''|}"
  by (simp add: two_pages_state identities_def togglePageSelection_def)

section \<open>Names of the delivered files\<close>

lemma savePdf_effects:
  "snd (savePdf lib s) = [] \<or> snd (savePdf lib s) = saveError
   \<or> (\<exists>file pdfBytes. pdfFile s = Some file
        \<and> snd (savePdf lib s) = [SaveAs pdfBytes (''organized-'' @ name_file file)])"
  by (auto simp: savePdf_def split: option.splits)

lemma mergePdfs_effects:
  "mergePdfs lib isoString pdfs = [] \<or> mergePdfs lib isoString pdfs = mergeError
   \<or> (\<exists>pdfBytes. mergePdfs lib isoString pdfs
        = [SaveAs pdfBytes (''merged-pdfs-''
             @ (case split CHR ''T'' isoString of [] \<Rightarrow> ''undefined'' | d # _ \<Rightarrow> d) @ ''.pdf'')])"
  by (auto simp: mergePdfs_def split: option.splits)

lemma organizer_file_name:
  assumes "SaveAs pdfBytes fileName \<in> set (snd (savePdf lib s))"
  shows "snd (savePdf lib s) = [SaveAs pdfBytes fileName]
        \<and> (\<exists>file. pdfFile s = Some file \<and> fileName = ''organized-'' @ name_file file)"
  using assms savePdf_effects[of lib s] by (auto simp: saveError_def)

lemma merger_file_name:
  assumes "CHR ''T'' \<notin> set date"
    and "SaveAs pdfBytes fileName \<in> set (mergePdfs lib (date @ ''T'' @ time) pdfs)"
  shows "mergePdfs lib (date @ ''T'' @ time) pdfs = [SaveAs pdfBytes fileName]
        \<and> fileName = ''merged-pdfs-'' @ date @ ''.pdf''"
proof -
  from assms(1) have "split CHR ''T'' (date @ CHR ''T'' # time) = date # split CHR ''T'' time"
    by (simp add: split_append_sep)
  with assms(2) mergePdfs_effects[of lib "date @ ''T'' @ time" pdfs] show ?thesis
    by (auto simp: mergeError_def)
qed

text \<open>
  C9, as the code has it: whatever \<^const>\<open>savePdf\<close> delivers is the single effect of
  the call and is named \<^verbatim>\<open>organized-\<close> followed by the name of the loaded file; the
  date plays no part. It is the merger whose file name is made from the date: for an ISO
  string \<open>date @ ''T'' @ time\<close> the name is \<^verbatim>\<open>merged-pdfs-\<close>, the date, \<^verbatim>\<open>.pdf\<close>,
  whatever the files are.
\<close>

theorem C9_file_names:
  "(\<forall>pdfBytes fileName. SaveAs pdfBytes fileName \<in> set (snd (savePdf lib s))
      \<longrightarrow> snd (savePdf lib s) = [SaveAs pdfBytes fileName]
          \<and> (\<exists>file. pdfFile s = Some file \<and> fileName = ''organized-'' @ name_file file))
   \<and> (\<forall>pdfBytes fileName date time. CHR ''T'' \<notin> set date
        \<and> SaveAs pdfBytes fileName \<in> set (mergePdfs lib (date @ ''T'' @ time) pdfs)
      \<longrightarrow> mergePdfs lib (date @ ''T'' @ time) pdfs = [SaveAs pdfBytes fileName]
          \<and> fileName = ''merged-pdfs-'' @ date @ ''.pdf'')"
  using organizer_file_name[of _ _ lib s] merger_file_name[of _ _ _ lib _ pdfs]
  by blast

lemma merge_run:
  "mergePdfs toy_lib ''2024-05-01T10:20:30.000Z'' merge_files
   = [SaveAs [''%PDF'', ''A'', ''B'', ''C''] ''merged-pdfs-2024-05-01.pdf'']"
  by (simp add: mergePdfs_def merge_files_def toy_lib_def toy_file_def)

theorem C9_file_names_witness:
  "SaveAs [''%PDF'', ''A'', ''B''] ''organized-in.pdf'' \<in> set (snd (savePdf toy_lib two_pages))
   \<and> pdfFile two_pages = Some (toy_file ''in.pdf'' [''A'', ''B''])
   \<and> ''organized-in.pdf'' = ''organized-'' @ name_file (toy_file ''in.pdf'' [''A'', ''B''])
   \<and> CHR ''T'' \<notin> set ''2024-05-01''
   \<and> SaveAs [''%PDF'', ''A'', ''B'', ''C''] ''merged-pdfs-2024-05-01.pdf''
       \<in> set (mergePdfs toy_lib (''2024-05-01'' @ ''T'' @ ''10:20:30.000Z'') merge_files)
   \<and> ''merged-pdfs-2024-05-01.pdf'' = ''merged-pdfs-'' @ ''2024-05-01'' @ ''.pdf''"
proof -
  have a: "SaveAs [''%PDF'', ''A'', ''B''] ''organized-in.pdf'' \<in> set (snd (savePdf toy_lib two_pages))"
    by (simp add: two_pages_state run_handlers)
  have b: "CHR ''T'' \<notin> set ''2024-05-01''" by simp
  have c: "SaveAs [''%PDF'', ''A'', ''B'', ''C''] ''merged-pdfs-2024-05-01.pdf''
       \<in> set (mergePdfs toy_lib (''2024-05-01'' @ ''T'' @ ''10:20:30.000Z'') merge_files)"
    using merge_run by simp
  have d: "pdfFile two_pages = Some (toy_file ''in.pdf'' [''A'', ''B''])"
    by (simp add: two_pages_state)
  note inst = C9_file_names[of toy_lib two_pages merge_files]
  from inst[THEN conjunct1, rule_format, OF a] d
  have e: "''organized-in.pdf'' = ''organized-'' @ name_file (toy_file ''in.pdf'' [''A'', ''B''])"
    by simp
  from inst[THEN conjunct2, rule_format, OF conjI[OF b c]]
  have f: "''merged-pdfs-2024-05-01.pdf'' = ''merged-pdfs-'' @ ''2024-05-01'' @ ''.pdf''"
    by (rule conjunct2)
  from a b c d e f show ?thesis by (intro conjI)
qed

text \<open>
  C9 as stated fails for the organizer: two saves of the same pages deliver under
  different names when the loaded files are named differently.
\<close>

theorem C9_name_follows_loaded_file_counterexample:
  "snd (savePdf toy_lib (fst (handleFile toy_lib initial (toy_file ''a.pdf'' [''A'']))))
     = [SaveAs [''%PDF'', ''A''] ''organized-a.pdf'']
   \<and> snd (savePdf toy_lib (fst (handleFile toy_lib initial (toy_file ''b.pdf'' [''A'']))))
     = [SaveAs [''%PDF'', ''A''] ''organized-b.pdf'']"
  by (simp add: run_handlers)

section \<open>Deleting\<close>






section \<open>Moving\<close>

lemma length_splice_out: "i < length xs \<Longrightarrow> length (splice_out i xs) = length xs - 1"
  by (simp add: splice_out_def)

lemma length_move_list: "i < length xs \<Longrightarrow> t < length xs \<Longrightarrow> length (move_list i t xs) = length xs"
  by (simp add: move_list_def splice_in_def splice_out_def)

lemma move_list_nth:
  assumes "i < length xs" and "t < length xs"
  shows "move_list i t xs ! t = xs ! i"
proof -
  from assms have "length (take t (splice_out i xs)) = t"
    by (simp add: length_splice_out)
  then show ?thesis
    unfolding move_list_def splice_in_def by (metis nth_append_length)
qed

lemma splice_out_splice_in:
  "t \<le> length ys \<Longrightarrow> splice_out t (splice_in t x ys) = ys"
  by (simp add: splice_out_def splice_in_def)

lemma splice_out_move_list:
  "i < length xs \<Longrightarrow> t < length xs \<Longrightarrow> splice_out t (move_list i t xs) = splice_out i xs"
  unfolding move_list_def by (rule splice_out_splice_in) (simp add: splice_out_def)

lemma move_list_same: "i < length xs \<Longrightarrow> move_list i i xs = xs"
  by (simp add: move_list_def splice_in_def splice_out_def id_take_nth_drop[symmetric])

lemma map_move_list:
  "i < length xs \<Longrightarrow> map f (move_list i t xs) = move_list i t (map f xs)"
  by (simp add: move_list_def splice_in_def splice_out_def take_map drop_map)

lemma set_splice_in: "set (splice_in t x ys) = insert x (set ys)"
proof -
  have "set (take t ys) \<union> set (drop t ys) = set ys"
    by (metis append_take_drop_id set_append)
  then show ?thesis by (auto simp: splice_in_def)
qed

lemma set_splice_out: "i < length xs \<Longrightarrow> insert (xs ! i) (set (splice_out i xs)) = set xs"
proof -
  assume "i < length xs"
  then have "xs = take i xs @ xs ! i # drop (Suc i) xs"
    by (rule id_take_nth_drop)
  then have "set xs = set (take i xs) \<union> insert (xs ! i) (set (drop (Suc i) xs))"
    by (metis list.simps(15) set_append)
  then show ?thesis by (auto simp: splice_out_def)
qed

lemma set_move_list: "i < length xs \<Longrightarrow> set (move_list i t xs) = set xs"
  by (simp add: move_list_def set_splice_in set_splice_out)

lemma move_list_by_positions:
  assumes "i < length xs"
  shows "move_list i t xs = map (\<lambda>k. xs ! k) (move_list i t [0 ..< length xs])"
proof -
  have "map (\<lambda>k. xs ! k) (move_list i t [0 ..< length xs])
        = move_list i t (map (\<lambda>k. xs ! k) [0 ..< length xs])"
    using assms by (simp add: map_move_list)
  then show ?thesis by (simp add: map_nth)
qed

lemma pages_by_move_perm:
  assumes "i < length xs"
  shows "(if t < 0 \<or> t \<ge> int (length xs) then xs else move_list i (nat t) xs)
         = map (\<lambda>k. xs ! k) (move_perm (length xs) i t)"
  using move_list_by_positions[OF assms, of "nat t"] by (simp add: move_perm_def map_nth)

lemma move_perm_props:
  assumes "i < n"
  shows "length (move_perm n i t) = n" and "set (move_perm n i t) = {0 ..< n}"
  using assms by (auto simp: move_perm_def length_move_list set_move_list)

lemma moves_perm_props:
  assumes "\<forall>(j, u) \<in> set ms. j < n"
  shows "length (moves_perm n ms) = n \<and> set (moves_perm n ms) \<subseteq> {0 ..< n}"
  using assms
proof (induction ms)
  case Nil
  show ?case by simp
next
  case (Cons m ms)
  obtain j u where m: "m = (j, u)" by (cases m)
  with Cons.prems have j: "j < n" by simp
  from Cons have ih: "length (moves_perm n ms) = n" "set (moves_perm n ms) \<subseteq> {0 ..< n}"
    by auto
  have "\<And>k. k < n \<Longrightarrow> move_perm n j u ! k < n"
    using move_perm_props[OF j, of u] by (metis atLeastLessThan_iff nth_mem)
  with ih show ?case by (auto simp: m)
qed

lemma movePage_result:
  assumes "i < length (pages s)"
  shows "movePage s i t = Some (s\<lparr>pages := map (\<lambda>k. pages s ! k) (move_perm (length (pages s)) i t)\<rparr>)"
  using assms pages_by_move_perm[OF assms, of t]
  by (auto simp: movePage_def split: if_splits)

lemma movePages_result:
  assumes "\<forall>(j, u) \<in> set ms. j < length (pages s)"
  shows "movePages s ms
         = Some (s\<lparr>pages := map (\<lambda>k. pages s ! k) (moves_perm (length (pages s)) ms)\<rparr>)"
  using assms
proof (induction ms arbitrary: s)
  case Nil
  show ?case by (simp add: map_nth)
next
  case (Cons m ms)
  obtain j u where m: "m = (j, u)" by (cases m)
  let ?n = "length (pages s)"
  let ?p = "move_perm ?n j u"
  let ?s1 = "s\<lparr>pages := map (\<lambda>k. pages s ! k) ?p\<rparr>"
  from Cons.prems m have j: "j < ?n" by simp
  have len: "length (pages ?s1) = ?n"
    using move_perm_props(1)[OF j] by simp
  from Cons.prems have rest: "\<forall>(j, u) \<in> set ms. j < length (pages ?s1)"
    unfolding len by auto
  have step: "movePage s j u = Some ?s1"
    by (rule movePage_result[OF j])
  from Cons.prems have "\<forall>(j, u) \<in> set ms. j < ?n" by auto
  then have bound: "set (moves_perm ?n ms) \<subseteq> {0 ..< ?n}"
    using moves_perm_props by blast
  have "map (\<lambda>k. pages ?s1 ! k) (moves_perm ?n ms)
        = map (\<lambda>k. pages s ! k) (map (\<lambda>k. ?p ! k) (moves_perm ?n ms))"
    using bound move_perm_props(1)[OF j, of u] by (auto simp: subset_iff)
  with Cons.IH[OF rest] step show ?case
    by (simp add: m move_perm_props(1)[OF j])
qed


text \<open>
  C5: for an entry at position \<open>i\<close>, \<^const>\<open>movePage\<close> to a target \<open>t\<close> within
  \<open>[0, length - 1]\<close> takes the entry out and puts it back at \<open>t\<close>: the length is kept,
  the entry is at position \<open>t\<close>, and the other entries are in their old relative order
  (taking the moved entry out again gives the sequence without it). With \<open>t\<close> outside
  that range or equal to \<open>i\<close> the state is returned unchanged. A list of moves yields the
  entries rearranged by the composition of the permutations the moves ask for.
\<close>

theorem C5_move:
  assumes "i < length (pages s)"
  shows "(0 \<le> t \<and> t < int (length (pages s)) \<longrightarrow>
            movePage s i t = Some (s\<lparr>pages := move_list i (nat t) (pages s)\<rparr>)
          \<and> length (move_list i (nat t) (pages s)) = length (pages s)
          \<and> move_list i (nat t) (pages s) ! nat t = pages s ! i
          \<and> splice_out (nat t) (move_list i (nat t) (pages s)) = splice_out i (pages s))
       \<and> (t < 0 \<or> int (length (pages s)) \<le> t \<or> t = int i \<longrightarrow> movePage s i t = Some s)
       \<and> (\<forall>ms. (\<forall>(j, u) \<in> set ms. j < length (pages s)) \<longrightarrow>
            movePages s ms
            = Some (s\<lparr>pages := map (\<lambda>k. pages s ! k) (moves_perm (length (pages s)) ms)\<rparr>))"
proof (intro conjI)
  show "0 \<le> t \<and> t < int (length (pages s)) \<longrightarrow>
            movePage s i t = Some (s\<lparr>pages := move_list i (nat t) (pages s)\<rparr>)
          \<and> length (move_list i (nat t) (pages s)) = length (pages s)
          \<and> move_list i (nat t) (pages s) ! nat t = pages s ! i
          \<and> splice_out (nat t) (move_list i (nat t) (pages s)) = splice_out i (pages s)"
  proof
    assume t: "0 \<le> t \<and> t < int (length (pages s))"
    then have n: "nat t < length (pages s)" by (simp add: nat_less_iff)
    from t assms have "movePage s i t = Some (s\<lparr>pages := move_list i (nat t) (pages s)\<rparr>)"
      by (simp add: movePage_def)
    with assms n show "movePage s i t = Some (s\<lparr>pages := move_list i (nat t) (pages s)\<rparr>)
          \<and> length (move_list i (nat t) (pages s)) = length (pages s)
          \<and> move_list i (nat t) (pages s) ! nat t = pages s ! i
          \<and> splice_out (nat t) (move_list i (nat t) (pages s)) = splice_out i (pages s)"
      by (simp add: length_move_list move_list_nth splice_out_move_list)
  qed
next
  show "t < 0 \<or> int (length (pages s)) \<le> t \<or> t = int i \<longrightarrow> movePage s i t = Some s"
    using assms by (auto simp: movePage_def move_list_same)
next
  show "\<forall>ms. (\<forall>(j, u) \<in> set ms. j < length (pages s)) \<longrightarrow>
            movePages s ms
            = Some (s\<lparr>pages := map (\<lambda>k. pages s ! k) (moves_perm (length (pages s)) ms)\<rparr>)"
    using movePages_result by blast
qed

lemma moves_perm_sample: "moves_perm 4 [(0, 2), (3, 0)] = [3, 1, 2, 0]"
  by (simp add: move_perm_def move_list_def splice_in_def splice_out_def upt_rec)

theorem C5_move_witness:
  "0 < length (pages four_pages)
   \<and> map id_page (move_list 0 (nat 2) (pages four_pages)) = [''page-1'', ''page-2'', ''page-0'', ''page-3'']
   \<and> movePage four_pages 0 2 = Some (four_pages\<lparr>pages := move_list 0 (nat 2) (pages four_pages)\<rparr>)
   \<and> movePage four_pages 0 (- 1) = Some four_pages
   \<and> movePage four_pages 0 4 = Some four_pages
   \<and> movePage four_pages 0 0 = Some four_pages
   \<and> movePages four_pages [(0, 2), (3, 0)]
     = Some (four_pages\<lparr>pages := map (\<lambda>k. pages four_pages ! k) [3, 1, 2, 0]\<rparr>)"
proof -
  have i: "0 < length (pages four_pages)" and n: "length (pages four_pages) = 4"
    by (simp_all add: four_pages_state)
  have ids: "map id_page (move_list 0 (nat 2) (pages four_pages))
             = [''page-1'', ''page-2'', ''page-0'', ''page-3'']"
    by (simp add: four_pages_state move_list_def splice_in_def splice_out_def)
  have ms: "\<forall>(j, u) \<in> set [(0, 2), (3, 0 :: int)]. j < length (pages four_pages)"
    by (simp add: n)
  from C5_move[OF i, of 2] n
  have a: "movePage four_pages 0 2 = Some (four_pages\<lparr>pages := move_list 0 (nat 2) (pages four_pages)\<rparr>)"
    by simp
  from C5_move[OF i, of "- 1"] have b: "movePage four_pages 0 (- 1) = Some four_pages"
    by simp
  from C5_move[OF i, of 4] n have c: "movePage four_pages 0 4 = Some four_pages"
    by simp
  from C5_move[OF i, of 0] have d: "movePage four_pages 0 0 = Some four_pages"
    by simp
  from C5_move[OF i, of 0, THEN conjunct2, THEN conjunct2, THEN spec, THEN mp, OF ms]
  have e: "movePages four_pages [(0, 2), (3, 0)]
     = Some (four_pages\<lparr>pages := map (\<lambda>k. pages four_pages ! k) [3, 1, 2, 0]\<rparr>)"
    by (simp only: n moves_perm_sample)
  from i ids a b c d e show ?thesis by (intro conjI)
qed

section \<open>The selection stays within the sequence\<close>

lemma consistent_handleFile: "selection_consistent (fst (handleFile lib s f))"
  by (simp add: handleFile_def Let_def selection_consistent_def split: option.splits)





lemma consistent_addPages:
  assumes "selection_consistent s"
  shows "selection_consistent (fst (addPagesFromFile lib clock s fs))"
  using assms
  by (auto simp: selection_consistent_def addPagesFromFile_def identities_def
      split: list.splits option.splits)

lemma consistent_savePdf:
  "selection_consistent s \<Longrightarrow> selection_consistent (fst (savePdf lib s))"
  by (simp add: selection_consistent_def savePdf_def identities_def)













section \<open>A handler that is not interrupted\<close>

text \<open>
  With no handler in flight and no event in between, the steps of an asynchronous handler
  add up to the function of the section on handlers.
\<close>

lemma uninterrupted_load:
  assumes "pdfFile (cells \<sigma>) = None" and "inflight \<sigma> = []"
  shows "session_step lib (session_step lib (session_step lib \<sigma> (ChooseFile f)) (Settle 0)) (Settle 0)
         = \<lparr>cells = fst (handleFile lib (cells \<sigma>) f), inflight = [],
            effects = effects \<sigma> @ snd (handleFile lib (cells \<sigma>) f)\<rparr>"
  using assms
  by (simp add: session_step_def settle_step_def settle_def replace_pending_def start_load_def
      handleFile_def Let_def split: option.splits)

lemma uninterrupted_add:
  assumes "pdfFile (cells \<sigma>) \<noteq> None" and "\<not> (isProcessing (cells \<sigma>) \<and> pages (cells \<sigma>) = [])"
    and "inflight \<sigma> = []"
  shows "session_step lib (session_step lib \<sigma> (AddPages clock fs)) (Settle 0)
         = \<lparr>cells = fst (addPagesFromFile lib clock (cells \<sigma>) fs), inflight = [],
            effects = effects \<sigma> @ snd (addPagesFromFile lib clock (cells \<sigma>) fs)\<rparr>"
  using assms
  by (auto simp: session_step_def settle_step_def settle_def replace_pending_def
      addPagesFromFile_def split: option.splits list.splits)

lemma uninterrupted_save:
  assumes "pdfFile (cells \<sigma>) \<noteq> None" and "\<not> isProcessing (cells \<sigma>)" and "pages (cells \<sigma>) \<noteq> []"
    and "inflight \<sigma> = []"
  shows "session_step lib (session_step lib \<sigma> ClickSave) (Settle 0)
         = \<lparr>cells = fst (savePdf lib (cells \<sigma>)), inflight = [],
            effects = effects \<sigma> @ snd (savePdf lib (cells \<sigma>))\<rparr>"
  using assms
  by (auto simp: session_step_def settle_step_def settle_def replace_pending_def savePdf_def)

section \<open>Selection and deletion\<close>





end
